theory Spec2Isabelle
  imports Main
begin

section \<open>Python values\<close>

text \<open>
  The values that travel through the manager: action arguments handed to
  \<^verbatim>\<open>request_action\<close> and the literals that \<^verbatim>\<open>literal_eval\<close> builds from a request
  body. A dictionary is an association list in insertion order.
\<close>

datatype pyval =
    PNone
  | PBool bool
  | PInt int
  | PStr string
  | PList "pyval list"
  | PTuple "pyval list"
  | PDict "(pyval \<times> pyval) list"

text \<open>Lists and dictionaries cannot be hashed; a tuple can when its items can.\<close>

fun hashable :: "pyval \<Rightarrow> bool" where
  "hashable (PList xs) = False"
| "hashable (PDict kvs) = False"
| "hashable (PTuple xs) = list_all hashable xs"
| "hashable v = True"

text \<open>\<^verbatim>\<open>for x in v\<close>: the items visited, or nothing when \<^verbatim>\<open>v\<close> is not iterable.\<close>

fun py_iter :: "pyval \<Rightarrow> pyval list option" where
  "py_iter (PStr s) = Some (map (\<lambda>c. PStr [c]) s)"
| "py_iter (PList xs) = Some xs"
| "py_iter (PTuple xs) = Some xs"
| "py_iter (PDict kvs) = Some (map fst kvs)"
| "py_iter v = None"

text \<open>
  \<^verbatim>\<open>d['key']\<close> for a string key of a dictionary: \<open>None\<close> exactly when
  \<^verbatim>\<open>'key' in d\<close> is false.
\<close>

definition get_key :: "(pyval \<times> pyval) list \<Rightarrow> string \<Rightarrow> pyval option" where
  "get_key d k = map_of d (PStr k)"

section \<open>Errors\<close>

text \<open>
  \<^verbatim>\<open>FormManagerException\<close> is the only exception class of the module; its instances
  differ in their message. The messages are:
  \<^item> \<open>Accepts_only_Form\<close>: "FormManager accepts only Form instances."
  \<^item> \<open>Already_exists\<close>: "This instance of a Form already exists in the FormManager."
  \<^item> \<open>Not_available n\<close>: "The instance of a Form 'n' isn't available in the manager! ..."
  \<^item> \<open>Already_active n\<close>: "The Form 'n' is already registered and active!"
  \<^item> \<open>Non_existing_Form\<close>: "Can't request an action for a non-existing Form!"
  The other constructors of \<open>error\<close> are the built-in exceptions the code can raise.
\<close>

datatype exn_text =
    Accepts_only_Form
  | Already_exists
  | Not_available pyval
  | Already_active pyval
  | Non_existing_Form

datatype error =
    FormManagerException exn_text
  | IndexError
  | AttributeError
  | TypeError
  | KeyError

section \<open>Forms\<close>

text \<open>
  A \<^verbatim>\<open>Form\<close> object. The class defines no \<^verbatim>\<open>__eq__\<close>, so \<^verbatim>\<open>form in list\<close> and
  \<^verbatim>\<open>list.remove(form)\<close> compare by object identity; \<open>ident\<close> is that identity, and
  since \<open>name\<close> and \<open>path\<close> are fixed by the constructor, equality of the records is
  identity of the objects. \<open>name\<close> is the base file name without its extension and
  \<open>path\<close> the absolute path, both computed by \<^verbatim>\<open>Form.__init__\<close>.
\<close>

record form =
  ident :: nat
  name :: string
  path :: string

text \<open>What a caller can pass to \<^verbatim>\<open>add_form\<close>: a \<^verbatim>\<open>Form\<close> or any other object.\<close>

datatype pyobj = Form_obj form | Other_obj

section \<open>The manager's state\<close>

text \<open>
  \<^verbatim>\<open>SocketServer.TCPServer\<close>: the port it is bound to and whether
  \<^verbatim>\<open>shutdown()\<close>/\<^verbatim>\<open>server_close()\<close> have been called on it.
\<close>

record tcp_server =
  address_port :: nat
  closed :: bool

text \<open>
  The attributes a \<^verbatim>\<open>FormManager\<close> object holds itself. \<^verbatim>\<open>self.__killed = True\<close>,
  \<^verbatim>\<open>self.__running = ...\<close> and \<^verbatim>\<open>self.__port = ...\<close> assign instance attributes, which
  shadow the class defaults \<^verbatim>\<open>False\<close>, \<^verbatim>\<open>False\<close> and \<^verbatim>\<open>0\<close>.
\<close>

record fm_instance =
  killed :: bool
  running :: bool
  port :: nat
  server :: "tcp_server option"

definition class_defaults :: fm_instance where
  "class_defaults = \<lparr>killed = False, running = False, port = 0, server = None\<rparr>"

text \<open>
  The class attributes \<^verbatim>\<open>__manager\<close>, \<^verbatim>\<open>__forms\<close>, \<^verbatim>\<open>__active_forms\<close>,
  \<^verbatim>\<open>__processes\<close> and \<^verbatim>\<open>__queue\<close> are shared by every instance: \<^verbatim>\<open>self.__forms\<close> reads
  the class attribute, and \<^verbatim>\<open>append\<close>, \<^verbatim>\<open>remove\<close>, item assignment and \<^verbatim>\<open>del\<close> mutate
  it in place. \<open>instances\<close> is the heap of manager objects, \<open>allocated\<close> the number
  of objects created so far (the next object gets that number). A queue entry
  \<^verbatim>\<open>[action, values]\<close> is a pair; a process is the thread running the command
  \<^verbatim>\<open>[python, form.path, "port=..."]\<close>, kept as the path and the port.
\<close>

record state =
  manager :: "nat option"
  forms :: "form list"
  active_forms :: "string list"
  processes :: "string \<rightharpoonup> string \<times> nat"
  queue :: "string \<rightharpoonup> (string \<times> pyval) list"
  instances :: "nat \<Rightarrow> fm_instance"
  allocated :: nat

text \<open>The module just imported: no manager, every collection empty.\<close>

definition boot :: state where
  "boot = \<lparr>manager = None, forms = [], active_forms = [], processes = Map.empty,
           queue = Map.empty, instances = (\<lambda>_. class_defaults), allocated = 0\<rparr>"

section \<open>FormManager\<close>

text \<open>\<^verbatim>\<open>__new__\<close>: the current manager if there is one, else a new object and fresh collections.\<close>

definition FormManager_new :: "state \<Rightarrow> nat \<times> state" where
  "FormManager_new s =
     (case manager s of
        Some m \<Rightarrow> (m, s)
      | None \<Rightarrow>
          (allocated s,
           s\<lparr>forms := [], active_forms := [], processes := Map.empty, queue := Map.empty,
             instances := (instances s)(allocated s := class_defaults),
             allocated := Suc (allocated s)\<rparr>))"

text \<open>\<^verbatim>\<open>__init__\<close> with the default \<^verbatim>\<open>port=0\<close>; Python runs it on whatever \<^verbatim>\<open>__new__\<close> returned.\<close>

definition FormManager_init :: "nat \<Rightarrow> state \<Rightarrow> state" where
  "FormManager_init self s =
     s\<lparr>manager := Some self,
       instances := (instances s)(self := (instances s self)\<lparr>port := 0, server := None\<rparr>)\<rparr>"

text \<open>The call \<^verbatim>\<open>FormManager()\<close>.\<close>

definition FormManager :: "state \<Rightarrow> nat \<times> state" where
  "FormManager s = (case FormManager_new s of (self, s') \<Rightarrow> (self, FormManager_init self s'))"

text \<open>\<^verbatim>\<open>n\<close> calls of \<^verbatim>\<open>FormManager()\<close> in a row: the objects returned, and the last state.\<close>

fun constructions :: "nat \<Rightarrow> state \<Rightarrow> nat list \<times> state" where
  "constructions 0 s = ([], s)"
| "constructions (Suc n) s =
     (case FormManager s of (m, s') \<Rightarrow>
        (case constructions n s' of (ms, s'') \<Rightarrow> (m # ms, s'')))"

definition get_manager :: "state \<Rightarrow> nat option" where
  "get_manager s = manager s"

definition upd_instance :: "nat \<Rightarrow> (fm_instance \<Rightarrow> fm_instance) \<Rightarrow> state \<Rightarrow> state" where
  "upd_instance self f s = s\<lparr>instances := (instances s)(self := f (instances s self))\<rparr>"

text \<open>
  The \<^verbatim>\<open>forms\<close> property: a dictionary from the name of each added form to its
  \<^verbatim>\<open>"active"\<close> flag, built by assignment in list order (the \<^verbatim>\<open>"process"\<close> entry is
  always \<^verbatim>\<open>None\<close>).
\<close>

definition forms_property :: "state \<Rightarrow> string \<rightharpoonup> bool" where
  "forms_property s =
     fold (\<lambda>ins d. d(name ins \<mapsto> (name ins \<in> set (active_forms s)))) (forms s) Map.empty"

text \<open>
  \<^verbatim>\<open>run\<close>. \<open>bound\<close> is the port the operating system gives a server asked for port 0;
  the bind is taken to succeed. The background thread serving requests is not part of
  the state.
\<close>

definition run :: "nat \<Rightarrow> nat \<Rightarrow> state \<Rightarrow> nat option \<times> state" where
  "run self bound s =
     (let i = instances s self in
      if killed i then (None, s)
      else
        let srv = (case server i of
                     None \<Rightarrow> \<lparr>address_port = (if port i = 0 then bound else port i), closed = False\<rparr>
                   | Some v \<Rightarrow> v)
        in (Some (address_port srv),
            upd_instance self
              (\<lambda>i. i\<lparr>server := Some srv, port := address_port srv, running := True\<rparr>) s))"

definition stop :: "nat \<Rightarrow> state \<Rightarrow> state" where
  "stop self s =
     (let i = instances s self in
      if killed i then s
      else upd_instance self
             (\<lambda>i. i\<lparr>server := map_option (\<lambda>v. v\<lparr>closed := True\<rparr>) (server i), running := False\<rparr>) s)"

definition kill :: "nat \<Rightarrow> state \<Rightarrow> state" where
  "kill self s =
     (if killed (instances s self) then s
      else (upd_instance self (\<lambda>i. i\<lparr>killed := True\<rparr>) (stop self s))\<lparr>manager := None\<rparr>)"

definition add_form :: "nat \<Rightarrow> pyobj \<Rightarrow> state \<Rightarrow> error + state" where
  "add_form self obj s =
     (if killed (instances s self) then Inr s
      else case obj of
          Other_obj \<Rightarrow> Inl (FormManagerException Accepts_only_Form)
        | Form_obj f \<Rightarrow>
            if f \<in> set (forms s) then Inl (FormManagerException Already_exists)
            else Inr (s\<lparr>forms := forms s @ [f]\<rparr>))"

definition remove_form :: "nat \<Rightarrow> form \<Rightarrow> state \<Rightarrow> state" where
  "remove_form self f s =
     (if killed (instances s self) then s
      else if f \<notin> set (forms s) then s
      else s\<lparr>queue := (if name f \<in> dom (queue s) then (queue s)(name f := None) else queue s),
             forms := remove1 f (forms s)\<rparr>)"

definition run_form :: "nat \<Rightarrow> form \<Rightarrow> state \<Rightarrow> bool option \<times> state" where
  "run_form self f s =
     (if killed (instances s self) then (None, s)
      else (Some True, s\<lparr>processes := (processes s)(name f \<mapsto> (path f, port (instances s self)))\<rparr>))"

text \<open>\<^verbatim>\<open>_register_form\<close> and \<^verbatim>\<open>_unregister_form\<close> (an Isabelle name cannot start with an underscore).\<close>

definition register_form :: "nat \<Rightarrow> string \<Rightarrow> state \<Rightarrow> error + state" where
  "register_form self n s =
     (case forms_property s n of
        None \<Rightarrow> Inl (FormManagerException (Not_available (PStr n)))
      | Some active \<Rightarrow>
          if active then Inl (FormManagerException (Already_active (PStr n)))
          else Inr (s\<lparr>active_forms := active_forms s @ [n]\<rparr>))"

definition unregister_form :: "nat \<Rightarrow> string \<Rightarrow> state \<Rightarrow> state" where
  "unregister_form self n s =
     (if forms_property s n = None then s
      else if n \<notin> set (active_forms s) then s
      else s\<lparr>active_forms := remove1 n (active_forms s)\<rparr>)"

definition request_action :: "nat \<Rightarrow> string \<Rightarrow> string \<Rightarrow> pyval \<Rightarrow> state \<Rightarrow> error + state" where
  "request_action self n action values s =
     (if forms_property s n = None then Inl (FormManagerException Non_existing_Form)
      else
        let q = (case queue s n of None \<Rightarrow> [] | Some entries \<Rightarrow> entries)
        in Inr (s\<lparr>queue := (queue s)(n \<mapsto> q @ [(action, values)])\<rparr>))"

text \<open>
  \<^verbatim>\<open>check_queue\<close> returns a dictionary: empty, or the one entry \<^verbatim>\<open>{action: values}\<close> of
  the head of the queue. The \<^verbatim>\<open>IndexError\<close> of \<^verbatim>\<open>self.queue[name][0]\<close> on an empty
  list is caught. Logging is left out.
\<close>

definition check_queue :: "nat \<Rightarrow> string \<Rightarrow> state \<Rightarrow> (string \<times> pyval) list \<times> state" where
  "check_queue self n s =
     (case queue s n of
        None \<Rightarrow> ([], s)
      | Some [] \<Rightarrow> ([], s)
      | Some ((action, values) # rest) \<Rightarrow> ([(action, values)], s))"

text \<open>
  What \<^verbatim>\<open>pop_queue\<close> returns: \<^verbatim>\<open>True\<close>, or the string
  "Couldn't pop from queue, no Form 'n' present" for the name it was given.
\<close>

datatype pop_result = Pop_True | Pop_no_Form pyval

definition pop_queue :: "nat \<Rightarrow> string \<Rightarrow> state \<Rightarrow> error + pop_result \<times> state" where
  "pop_queue self n s =
     (case queue s n of
        None \<Rightarrow> Inr (Pop_no_Form (PStr n), s)
      | Some [] \<Rightarrow> Inl IndexError
      | Some (x # rest) \<Rightarrow> Inr (Pop_True, s\<lparr>queue := (queue s)(n \<mapsto> rest)\<rparr>))"

section \<open>FormServerHandler\<close>

text \<open>
  The manager's methods are written for names that are strings. The handler passes
  them whatever value the request holds: a value that cannot be hashed makes the
  dictionary lookup raise \<^verbatim>\<open>TypeError\<close>, and any other value that is not a string
  is a name the manager does not know.
\<close>

definition register_value :: "nat \<Rightarrow> pyval \<Rightarrow> state \<Rightarrow> error + state" where
  "register_value self v s =
     (case v of
        PStr n \<Rightarrow> register_form self n s
      | _ \<Rightarrow> if hashable v then Inl (FormManagerException (Not_available v)) else Inl TypeError)"

definition unregister_value :: "nat \<Rightarrow> pyval \<Rightarrow> state \<Rightarrow> error + state" where
  "unregister_value self v s =
     (case v of
        PStr n \<Rightarrow> Inr (unregister_form self n s)
      | _ \<Rightarrow> if hashable v then Inr s else Inl TypeError)"

definition check_queue_value ::
  "nat \<Rightarrow> pyval \<Rightarrow> state \<Rightarrow> error + (string \<times> pyval) list \<times> state" where
  "check_queue_value self v s =
     (case v of
        PStr n \<Rightarrow> Inr (check_queue self n s)
      | _ \<Rightarrow> if hashable v then Inr ([], s) else Inl TypeError)"

definition pop_queue_value :: "nat \<Rightarrow> pyval \<Rightarrow> state \<Rightarrow> error + pop_result \<times> state" where
  "pop_queue_value self v s =
     (case v of
        PStr n \<Rightarrow> pop_queue self n s
      | _ \<Rightarrow> if hashable v then Inr (Pop_no_Form v, s) else Inl TypeError)"

text \<open>
  The body of the response: none at all, \<^verbatim>\<open>{'result': 'OK'}\<close>, the dictionary of
  \<^verbatim>\<open>check_queue\<close>, or \<^verbatim>\<open>{'queue_pop': ...}\<close>; the handler sends \<^verbatim>\<open>str\<close> of the
  dictionary.
\<close>

datatype reply =
    No_body
  | Result_OK
  | Action_reply "(string \<times> pyval) list"
  | Queue_pop pop_result

text \<open>
  The \<^verbatim>\<open>'add_action'\<close> branch loops over the value of the key. Its body reads
  \<^verbatim>\<open>self.queue\<close>, an attribute the handler does not have, so the first round raises
  \<^verbatim>\<open>AttributeError\<close>; a value with nothing to loop over gets \<^verbatim>\<open>{'result': 'OK'}\<close>.
\<close>

definition add_action :: "pyval \<Rightarrow> state \<Rightarrow> error + reply \<times> state" where
  "add_action v s =
     (case py_iter v of
        None \<Rightarrow> Inl TypeError
      | Some [] \<Rightarrow> Inr (Result_OK, s)
      | Some (x # xs) \<Rightarrow> Inl AttributeError)"

text \<open>\<^verbatim>\<open>result['callback']['name']\<close>.\<close>

definition callback_name :: "pyval \<Rightarrow> error + pyval" where
  "callback_name v =
     (case v of
        PDict d \<Rightarrow> (case get_key d ''name'' of None \<Rightarrow> Inl KeyError | Some n \<Rightarrow> Inr n)
      | _ \<Rightarrow> Inl TypeError)"

text \<open>
  \<^verbatim>\<open>do_POST\<close>, from the dictionary that \<^verbatim>\<open>literal_eval\<close> made of the request body.
  \<^verbatim>\<open>get_manager()\<close> is \<^verbatim>\<open>None\<close> when no manager is alive, and calling a method on it
  raises \<^verbatim>\<open>AttributeError\<close>.
\<close>

definition do_POST :: "(pyval \<times> pyval) list \<Rightarrow> state \<Rightarrow> error + reply \<times> state" where
  "do_POST result s =
     (case get_key result ''register'' of
        Some v \<Rightarrow>
          (case get_manager s of
             None \<Rightarrow> Inl AttributeError
           | Some m \<Rightarrow>
               (case register_value m v s of
                  Inl e \<Rightarrow> Inl e
                | Inr s' \<Rightarrow> Inr (Result_OK, s')))
      | None \<Rightarrow>
     (case get_key result ''unregister'' of
        Some v \<Rightarrow>
          (case get_manager s of
             None \<Rightarrow> Inl AttributeError
           | Some m \<Rightarrow>
               (case unregister_value m v s of
                  Inl e \<Rightarrow> Inl e
                | Inr s' \<Rightarrow> Inr (No_body, s')))
      | None \<Rightarrow>
     (case get_key result ''add_action'' of
        Some v \<Rightarrow> add_action v s
      | None \<Rightarrow>
     (case get_key result ''ask_action'' of
        Some v \<Rightarrow>
          (case get_manager s of
             None \<Rightarrow> Inl AttributeError
           | Some m \<Rightarrow>
               (case check_queue_value m v s of
                  Inl e \<Rightarrow> Inl e
                | Inr (d, s') \<Rightarrow> Inr (Action_reply d, s')))
      | None \<Rightarrow>
     (case get_key result ''callback'' of
        Some v \<Rightarrow>
          (case callback_name v of
             Inl e \<Rightarrow> Inl e
           | Inr form \<Rightarrow>
               (case get_manager s of
                  None \<Rightarrow> Inl AttributeError
                | Some m \<Rightarrow>
                    (case pop_queue_value m form s of
                       Inl e \<Rightarrow> Inl e
                     | Inr (r, s') \<Rightarrow> Inr (Queue_pop r, s'))))
      | None \<Rightarrow> Inr (No_body, s))))))"

section \<open>FormApp\<close>

text \<open>The keys of the table \<^verbatim>\<open>FormApp.__actions\<close>.\<close>

definition actions :: "string list" where
  "actions = [''pass'', ''print'', ''setattr'', ''print_value'', ''call'', ''call_args'',
              ''call_kwargs'', ''call_args_kwargs'', ''stop'']"

text \<open>
  The local variables of \<^verbatim>\<open>_ask\<close>, and \<open>dispatched\<close>: the entries for which
  \<^verbatim>\<open>self.__actions[key](*result[key])\<close> was evaluated, in order.
\<close>

record ask_vars =
  status :: nat
  action :: "string option"
  error :: string
  dispatched :: "(string \<times> pyval) list"

text \<open>
  The loop \<^verbatim>\<open>for key in result\<close>. What the table's functions do is outside the
  module: \<open>call key args\<close> is \<open>None\<close> when \<^verbatim>\<open>self.__actions[key](*args)\<close> returns
  and \<open>Some r\<close> when it raises an exception whose \<^verbatim>\<open>repr\<close> is \<open>r\<close>.
\<close>

fun ask_loop ::
  "(string \<Rightarrow> pyval \<Rightarrow> string option) \<Rightarrow> (pyval \<times> pyval) list \<Rightarrow> ask_vars \<Rightarrow> ask_vars" where
  "ask_loop call [] vars = vars"
| "ask_loop call ((PStr key, args) # rest) vars =
     (if key \<notin> set actions then ask_loop call rest vars
      else
        let vars1 = vars\<lparr>action := Some key, dispatched := dispatched vars @ [(key, args)]\<rparr>
        in ask_loop call rest
             (case call key args of
                None \<Rightarrow> vars1
              | Some r \<Rightarrow> vars1\<lparr>status := 1, error := r\<rparr>))"
| "ask_loop call ((key, args) # rest) vars = ask_loop call rest vars"

text \<open>
  \<^verbatim>\<open>_ask\<close> from the response to the poll up to the callback: the variables after the
  loop. With \<open>action = None\<close> the method goes back to polling, otherwise it sends the
  callback with \<open>action\<close>, \<open>status\<close> and \<open>error\<close>.
\<close>

definition ask :: "(string \<Rightarrow> pyval \<Rightarrow> string option) \<Rightarrow> (pyval \<times> pyval) list \<Rightarrow> ask_vars" where
  "ask call result =
     ask_loop call result
       \<lparr>status = (if length result > 1 then 1 else 0), action = None, error = [],
        dispatched = []\<rparr>"

section \<open>Sequences of calls\<close>

text \<open>The names the \<^verbatim>\<open>forms\<close> property lists, and the names marked active.\<close>

definition known :: "state \<Rightarrow> string set" where
  "known s = dom (forms_property s)"

definition active :: "state \<Rightarrow> string set" where
  "active s = set (active_forms s)"

text \<open>The entries waiting for a name: none when the name has no queue.\<close>

definition pending :: "state \<Rightarrow> string \<Rightarrow> (string \<times> pyval) list" where
  "pending s n = (case queue s n of None \<Rightarrow> [] | Some entries \<Rightarrow> entries)"

text \<open>
  A call on the module: the constructor, a method of the manager object \<open>self\<close>, or a
  request to the handler.
\<close>

datatype op =
    Construct
  | Run nat nat
  | Stop nat
  | Kill nat
  | Add_form nat pyobj
  | Remove_form nat form
  | Run_form nat form
  | Register nat string
  | Unregister nat string
  | Request_action nat string string pyval
  | Check_queue nat string
  | Pop_queue nat string
  | Post "(pyval \<times> pyval) list"

text \<open>
  The state a call leaves. Every \<^verbatim>\<open>raise\<close> of the module, and the \<^verbatim>\<open>pop\<close> from an
  empty list, comes before the first mutation of its method, so a call that raises
  leaves the state it found.
\<close>

definition state_of :: "state \<Rightarrow> error + state \<Rightarrow> state" where
  "state_of s r = (case r of Inl e \<Rightarrow> s | Inr s' \<Rightarrow> s')"

definition state_of_pair :: "state \<Rightarrow> error + 'a \<times> state \<Rightarrow> state" where
  "state_of_pair s r = (case r of Inl e \<Rightarrow> s | Inr (x, s') \<Rightarrow> s')"

fun exec :: "op \<Rightarrow> state \<Rightarrow> state" where
  "exec Construct s = snd (FormManager s)"
| "exec (Run self bound) s = snd (run self bound s)"
| "exec (Stop self) s = stop self s"
| "exec (Kill self) s = kill self s"
| "exec (Add_form self obj) s = state_of s (add_form self obj s)"
| "exec (Remove_form self f) s = remove_form self f s"
| "exec (Run_form self f) s = snd (run_form self f s)"
| "exec (Register self n) s = state_of s (register_form self n s)"
| "exec (Unregister self n) s = unregister_form self n s"
| "exec (Request_action self n a v) s = state_of s (request_action self n a v s)"
| "exec (Check_queue self n) s = snd (check_queue self n s)"
| "exec (Pop_queue self n) s = state_of_pair s (pop_queue self n s)"
| "exec (Post result) s = state_of_pair s (do_POST result s)"

text \<open>A sequence of calls, the first of the list first.\<close>

definition exec_all :: "op list \<Rightarrow> state \<Rightarrow> state" where
  "exec_all ops s = fold exec ops s"

text \<open>
  The states the module can be in: the one after the import, and the one any call
  leaves from such a state.
\<close>

inductive reachable :: "state \<Rightarrow> bool" where
  reachable_boot: "reachable boot"
| reachable_exec: "reachable s \<Longrightarrow> reachable (exec c s)"

text \<open>
  The convention of the process tree in the module's documentation: a form is
  unregistered before it is removed, so \<^verbatim>\<open>remove_form\<close> is not called on a form
  whose name is active.
\<close>

fun by_convention :: "state \<Rightarrow> op \<Rightarrow> bool" where
  "by_convention s (Remove_form self f) = (name f \<notin> active s)"
| "by_convention s c = True"

inductive orderly :: "state \<Rightarrow> bool" where
  orderly_boot: "orderly boot"
| orderly_exec: "orderly s \<Longrightarrow> by_convention s c \<Longrightarrow> orderly (exec c s)"

text \<open>Two forms made from files of the same name in different directories, and a third.\<close>

definition form1 :: form where
  "form1 = \<lparr>ident = 1, name = ''form1'', path = ''/srv/a/form1.py''\<rparr>"

definition form1' :: form where
  "form1' = \<lparr>ident = 2, name = ''form1'', path = ''/srv/b/form1.py''\<rparr>"

definition form2 :: form where
  "form2 = \<lparr>ident = 3, name = ''form2'', path = ''/srv/a/form2.py''\<rparr>"

section \<open>Invariants and scenarios\<close>

text \<open>The invariant of the registry, on the lists themselves: every active name is the name of an added form.\<close>

definition subset_inv :: "state \<Rightarrow> bool" where
  "subset_inv s = (set (active_forms s) \<subseteq> name ` set (forms s))"

text \<open>What every reachable state satisfies: no form object is in the list twice, and the current manager is an allocated object that has not been killed.\<close>

definition wf :: "state \<Rightarrow> bool" where
  "wf s = (distinct (forms s) \<and>
           (\<forall>m. manager s = Some m \<longrightarrow> m < allocated s \<and> \<not> killed (instances s m)))"

text \<open>A manager with one form added.\<close>

definition one_form :: state where
  "one_form = exec_all [Construct, Add_form 0 (Form_obj form1)] boot"

text \<open>A manager with two form objects of the same name added.\<close>

definition two_forms :: state where
  "two_forms = exec_all [Construct, Add_form 0 (Form_obj form1), Add_form 0 (Form_obj form1')] boot"

text \<open>A form is added, registers, and is removed while still registered.\<close>

definition removed_while_active :: state where
  "removed_while_active =
     exec_all [Construct, Add_form 0 (Form_obj form1), Register 0 ''form1'', Remove_form 0 form1] boot"

text \<open>A form is added and registers.\<close>

definition registered :: state where
  "registered = exec_all [Construct, Add_form 0 (Form_obj form1), Register 0 ''form1''] boot"

text \<open>A manager with one form added, then killed.\<close>

definition killed_manager :: state where
  "killed_manager = exec_all [Construct, Add_form 0 (Form_obj form1), Kill 0] boot"

text \<open>One action was requested and popped: the queue entry of the form is an empty list.\<close>

definition drained :: state where
  "drained =
     exec_all [Construct, Add_form 0 (Form_obj form1),
               Request_action 0 ''form1'' ''print'' (PStr ''test''), Pop_queue 0 ''form1''] boot"

text \<open>One action is already waiting for the form.\<close>

definition one_pending :: state where
  "one_pending =
     exec_all [Construct, Add_form 0 (Form_obj form1),
               Request_action 0 ''form1'' ''stop'' (PList [])] boot"

section \<open>Properties\<close>

lemma forms_property_fold:
  "fold (\<lambda>ins d. d(name ins \<mapsto> (name ins \<in> A))) fs m n =
     (if n \<in> name ` set fs then Some (n \<in> A) else m n)"
  by (induction fs arbitrary: m) auto

lemma forms_property_eq:
  "forms_property s n = (if n \<in> name ` set (forms s) then Some (n \<in> set (active_forms s)) else None)"
  by (simp add: forms_property_def forms_property_fold)

lemma known_names: "known s = name ` set (forms s)"
  by (auto simp: known_def dom_def forms_property_eq)

lemma request_action_known:
  "n \<in> known s \<Longrightarrow>
   request_action self n a v s = Inr (s\<lparr>queue := (queue s)(n \<mapsto> pending s n @ [(a, v)])\<rparr>)"
  by (auto simp: request_action_def known_def pending_def)

lemma request_action_unknown:
  "n \<notin> known s \<Longrightarrow> request_action self n a v s = Inl (FormManagerException Non_existing_Form)"
  by (auto simp: request_action_def known_def)

lemma known_queue_update [simp]: "known (s\<lparr>queue := q\<rparr>) = known s"
  by (simp add: known_names)

lemma pending_queue_update [simp]:
  "pending (s\<lparr>queue := (queue s)(n \<mapsto> es)\<rparr>) n' = (if n' = n then es else pending s n')"
  by (simp add: pending_def)

lemma check_queue_head: "check_queue self n s = (take 1 (pending s n), s)"
  by (cases "queue s n"; cases "the (queue s n)") (auto simp: check_queue_def pending_def)

lemma two_requests:
  assumes "n \<in> known s"
  shows "\<exists>s1 s2 s3.
         request_action self n a1 v1 s = Inr s1 \<and>
         request_action self n a2 v2 s1 = Inr s2 \<and>
         pending s2 n = pending s n @ [(a1, v1), (a2, v2)] \<and>
         check_queue self n s2 = (take 1 (pending s n @ [(a1, v1), (a2, v2)]), s2) \<and>
         pop_queue self n s2 = Inr (Pop_True, s3) \<and>
         pending s3 n = drop 1 (pending s n @ [(a1, v1), (a2, v2)]) \<and>
         check_queue self n s3 = (take 1 (drop 1 (pending s n @ [(a1, v1), (a2, v2)])), s3)"
proof -
  let ?q = "pending s n @ [(a1, v1), (a2, v2)]"
  define s1 where "s1 = s\<lparr>queue := (queue s)(n \<mapsto> pending s n @ [(a1, v1)])\<rparr>"
  define s2 where "s2 = s1\<lparr>queue := (queue s1)(n \<mapsto> ?q)\<rparr>"
  define s3 where "s3 = s2\<lparr>queue := (queue s2)(n \<mapsto> drop 1 ?q)\<rparr>"
  have r1: "request_action self n a1 v1 s = Inr s1"
    using assms by (simp add: request_action_known s1_def)
  have "n \<in> known s1" "pending s1 n = pending s n @ [(a1, v1)]"
    using assms by (simp_all add: s1_def)
  then have r2: "request_action self n a2 v2 s1 = Inr s2"
    by (simp add: request_action_known s2_def)
  have q2: "pending s2 n = ?q" by (simp add: s2_def)
  have c2: "check_queue self n s2 = (take 1 ?q, s2)"
    by (simp only: check_queue_head q2)
  obtain e rest where er: "?q = e # rest" by (cases ?q) simp_all
  have "queue s2 n = Some (e # rest)" by (simp add: s2_def er)
  then have p2: "pop_queue self n s2 = Inr (Pop_True, s3)"
    by (simp add: pop_queue_def s3_def er)
  have q3: "pending s3 n = drop 1 ?q" by (simp add: s3_def)
  have c3: "check_queue self n s3 = (take 1 (drop 1 ?q), s3)"
    by (simp only: check_queue_head q3)
  from r1 r2 q2 c2 p2 q3 c3 show ?thesis
    by (intro exI[of _ s1] exI[of _ s2] exI[of _ s3] conjI)
qed

text \<open>
  Claim C1, amended. For a known name \<open>n\<close>, after \<^verbatim>\<open>request_action(n, a1, v1)\<close>
  and \<^verbatim>\<open>request_action(n, a2, v2)\<close> the queue of \<open>n\<close> is what was waiting before
  followed by the two new entries; \<^verbatim>\<open>check_queue(n)\<close> returns the one-entry dictionary
  of the head of that queue and leaves the state as it was, and after \<^verbatim>\<open>pop_queue(n)\<close>
  it returns the entry of the element that follows. When nothing was waiting these
  are \<^verbatim>\<open>{a1: v1}\<close> and then \<^verbatim>\<open>{a2: v2}\<close>. In any state \<^verbatim>\<open>check_queue(n)\<close> returns the
  empty dictionary when \<open>n\<close> has no queue entry or an empty one, and the entry of
  the head otherwise.
\<close>

theorem check_queue_fifo:
  "(n \<in> known s \<longrightarrow>
      (\<exists>s1 s2 s3.
         request_action self n a1 v1 s = Inr s1 \<and>
         request_action self n a2 v2 s1 = Inr s2 \<and>
         pending s2 n = pending s n @ [(a1, v1), (a2, v2)] \<and>
         check_queue self n s2 = (take 1 (pending s n @ [(a1, v1), (a2, v2)]), s2) \<and>
         pop_queue self n s2 = Inr (Pop_True, s3) \<and>
         pending s3 n = drop 1 (pending s n @ [(a1, v1), (a2, v2)]) \<and>
         check_queue self n s3 = (take 1 (drop 1 (pending s n @ [(a1, v1), (a2, v2)])), s3))) \<and>
   (n \<in> known s \<and> pending s n = [] \<longrightarrow>
      (\<exists>s1 s2 s3.
         request_action self n a1 v1 s = Inr s1 \<and>
         request_action self n a2 v2 s1 = Inr s2 \<and>
         check_queue self n s2 = ([(a1, v1)], s2) \<and>
         pop_queue self n s2 = Inr (Pop_True, s3) \<and>
         check_queue self n s3 = ([(a2, v2)], s3))) \<and>
   (queue s n = None \<or> queue s n = Some [] \<longrightarrow> check_queue self n s = ([], s)) \<and>
   (\<forall>e rest. queue s n = Some (e # rest) \<longrightarrow> check_queue self n s = ([e], s))"
proof (intro conjI impI allI)
  assume "n \<in> known s"
  then show "\<exists>s1 s2 s3.
         request_action self n a1 v1 s = Inr s1 \<and>
         request_action self n a2 v2 s1 = Inr s2 \<and>
         pending s2 n = pending s n @ [(a1, v1), (a2, v2)] \<and>
         check_queue self n s2 = (take 1 (pending s n @ [(a1, v1), (a2, v2)]), s2) \<and>
         pop_queue self n s2 = Inr (Pop_True, s3) \<and>
         pending s3 n = drop 1 (pending s n @ [(a1, v1), (a2, v2)]) \<and>
         check_queue self n s3 = (take 1 (drop 1 (pending s n @ [(a1, v1), (a2, v2)])), s3)"
    by (rule two_requests)
next
  assume h: "n \<in> known s \<and> pending s n = []"
  then have "n \<in> known s" by simp
  from two_requests[OF this, of self a1 v1 a2 v2]
  obtain s1 s2 s3 where
    "request_action self n a1 v1 s = Inr s1" "request_action self n a2 v2 s1 = Inr s2"
    "check_queue self n s2 = (take 1 (pending s n @ [(a1, v1), (a2, v2)]), s2)"
    "pop_queue self n s2 = Inr (Pop_True, s3)"
    "check_queue self n s3 = (take 1 (drop 1 (pending s n @ [(a1, v1), (a2, v2)])), s3)"
    by (elim exE conjE)
  with h have
    "request_action self n a1 v1 s = Inr s1 \<and> request_action self n a2 v2 s1 = Inr s2 \<and>
     check_queue self n s2 = ([(a1, v1)], s2) \<and> pop_queue self n s2 = Inr (Pop_True, s3) \<and>
     check_queue self n s3 = ([(a2, v2)], s3)"
    by simp
  then show "\<exists>s1 s2 s3.
         request_action self n a1 v1 s = Inr s1 \<and>
         request_action self n a2 v2 s1 = Inr s2 \<and>
         check_queue self n s2 = ([(a1, v1)], s2) \<and>
         pop_queue self n s2 = Inr (Pop_True, s3) \<and>
         check_queue self n s3 = ([(a2, v2)], s3)"
    by (intro exI)
next
  assume "queue s n = None \<or> queue s n = Some []"
  then show "check_queue self n s = ([], s)"
    by (auto simp: check_queue_def)
next
  fix e rest
  assume "queue s n = Some (e # rest)"
  then show "check_queue self n s = ([e], s)"
    by (cases e) (simp add: check_queue_def)
qed

lemmas method_defs =
  FormManager_def FormManager_new_def FormManager_init_def run_def stop_def kill_def
  add_form_def remove_form_def run_form_def register_form_def unregister_form_def
  request_action_def check_queue_def pop_queue_def upd_instance_def get_manager_def

lemmas handler_defs =
  do_POST_def register_value_def unregister_value_def check_queue_value_def
  pop_queue_value_def add_action_def callback_name_def

lemma do_POST_cases:
  "do_POST result s = Inr (r, s') \<Longrightarrow>
     s' = s \<or>
     (\<exists>m n. register_form m n s = Inr s') \<or>
     (\<exists>m n. s' = unregister_form m n s) \<or>
     (\<exists>m n x. pop_queue m n s = Inr (x, s'))"
  unfolding handler_defs
  by (auto split: option.splits sum.splits pyval.splits if_splits list.splits prod.splits simp: check_queue_def)

lemma exec_preserves_subset:
  assumes "subset_inv s" "by_convention s c"
  shows "subset_inv (exec c s)"
proof (cases c)
  case (Post result)
  show ?thesis
  proof (cases "do_POST result s")
    case (Inl e)
    with Post assms show ?thesis by (simp add: state_of_pair_def)
  next
    case (Inr p)
    obtain r s' where p: "p = (r, s')" by (cases p)
    from do_POST_cases[OF Inr[unfolded p]] assms(1)
    have "subset_inv s'"
      by (auto simp: subset_inv_def register_form_def unregister_form_def pop_queue_def forms_property_eq 
          split: option.splits if_splits list.splits dest: notin_set_remove1)
    with Post Inr p show ?thesis by (simp add: state_of_pair_def)
  qed
next
  case (Remove_form self f)
  with assms show ?thesis
    by (auto simp: subset_inv_def remove_form_def active_def  split: if_splits dest!: subsetD)
      (metis (no_types, lifting) image_iff in_set_remove1)
qed (use assms in \<open>auto simp: subset_inv_def method_defs state_of_def state_of_pair_def forms_property_eq Let_def
      split: option.splits if_splits list.splits sum.splits pyobj.splits dest: notin_set_remove1\<close>)

lemma wf_boot: "wf boot"
  by (simp add: wf_def boot_def)

lemma register_form_frame:
  "register_form m n s = Inr s' \<Longrightarrow>
     forms s' = forms s \<and> manager s' = manager s \<and> instances s' = instances s \<and> allocated s' = allocated s"
  by (cases "forms_property s n") (auto simp: register_form_def split: if_splits)

lemma unregister_form_frame:
  "forms (unregister_form m n s) = forms s \<and> manager (unregister_form m n s) = manager s \<and>
   instances (unregister_form m n s) = instances s \<and> allocated (unregister_form m n s) = allocated s"
  by (simp add: unregister_form_def)

lemma pop_queue_frame:
  "pop_queue m n s = Inr (x, s') \<Longrightarrow>
     forms s' = forms s \<and> manager s' = manager s \<and> instances s' = instances s \<and> allocated s' = allocated s"
  by (cases "queue s n"; cases "the (queue s n)") (auto simp: pop_queue_def)

lemma do_POST_frame:
  assumes "do_POST result s = Inr (r, s')"
  shows "forms s' = forms s \<and> manager s' = manager s \<and> instances s' = instances s \<and> allocated s' = allocated s"
  using do_POST_cases[OF assms]
proof (elim disjE exE)
  assume "s' = s"
  then show ?thesis by simp
next
  fix m n assume "register_form m n s = Inr s'"
  then show ?thesis by (rule register_form_frame)
next
  fix m n assume "s' = unregister_form m n s"
  then show ?thesis by (simp only: unregister_form_frame)
next
  fix m n x assume "pop_queue m n s = Inr (x, s')"
  then show ?thesis by (rule pop_queue_frame)
qed

lemma wf_exec: "wf s \<Longrightarrow> wf (exec c s)"
proof (cases c)
  case (Post result)
  assume w: "wf s"
  show ?thesis
  proof (cases "do_POST result s")
    case (Inl e)
    with Post w show ?thesis by (simp add: state_of_pair_def)
  next
    case (Inr p)
    obtain r s' where p: "p = (r, s')" by (cases p)
    from do_POST_frame[OF Inr[unfolded p]]
    have "wf s' = wf s" by (simp add: wf_def)
    with Post Inr p w show ?thesis by (simp add: state_of_pair_def)
  qed
next
  case Construct
  assume "wf s"
  then show ?thesis using Construct
    by (cases "manager s")
       (simp_all add: wf_def FormManager_def FormManager_new_def FormManager_init_def class_defaults_def)
next
  case (Run self bound)
  assume "wf s"
  then show ?thesis using Run
    by (cases "manager s") (simp_all add: wf_def run_def upd_instance_def Let_def)
next
  case (Stop self)
  assume "wf s"
  then show ?thesis using Stop
    by (cases "manager s") (simp_all add: wf_def stop_def upd_instance_def Let_def)
next
  case (Kill self)
  assume "wf s"
  then show ?thesis using Kill
    by (simp add: wf_def kill_def stop_def upd_instance_def Let_def)
next
  case (Add_form self obj)
  assume "wf s"
  then show ?thesis using Add_form
    by (cases obj) (simp_all add: wf_def add_form_def state_of_def)
next
  case (Remove_form self f)
  assume "wf s"
  then show ?thesis using Remove_form
    by (simp add: wf_def remove_form_def)
next
  case (Run_form self f)
  assume "wf s"
  then show ?thesis using Run_form
    by (simp add: wf_def run_form_def)
next
  case (Register self n)
  assume "wf s"
  then show ?thesis using Register
    by (simp add: wf_def register_form_def state_of_def split: option.splits)
next
  case (Unregister self n)
  assume "wf s"
  then show ?thesis using Unregister
    by (simp add: wf_def unregister_form_def)
next
  case (Request_action self n a v)
  assume "wf s"
  then show ?thesis using Request_action
    by (simp add: wf_def request_action_def state_of_def Let_def)
next
  case (Check_queue self n)
  assume "wf s"
  then show ?thesis using Check_queue
    by (simp add: wf_def check_queue_def split: option.splits list.splits)
next
  case (Pop_queue self n)
  assume "wf s"
  then show ?thesis using Pop_queue
    by (simp add: wf_def pop_queue_def state_of_pair_def split: option.splits list.splits)
qed

lemma reachable_wf: "reachable s \<Longrightarrow> wf s"
  by (induction rule: reachable.induct) (simp_all add: wf_boot wf_exec)

lemma manager_exec:
  assumes nk: "\<forall>self. c \<noteq> Kill self" and m: "manager s = Some m"
  shows "manager (exec c s) = Some m"
proof (cases c)
  case (Post result)
  show ?thesis
  proof (cases "do_POST result s")
    case (Inl e)
    with Post m show ?thesis by (simp add: state_of_pair_def)
  next
    case (Inr p)
    obtain r s' where p: "p = (r, s')" by (cases p)
    from do_POST_frame[OF Inr[unfolded p]] have "manager s' = manager s" by simp
    with Post Inr p m show ?thesis by (simp add: state_of_pair_def)
  qed
next
  case Construct
  with m show ?thesis
    by (simp add: FormManager_def FormManager_new_def FormManager_init_def)
next
  case (Run self bound)
  with m show ?thesis by (simp add: run_def upd_instance_def Let_def)
next
  case (Stop self)
  with m show ?thesis by (simp add: stop_def upd_instance_def Let_def)
next
  case (Kill self)
  with nk show ?thesis by simp
next
  case (Add_form self obj)
  with m show ?thesis by (cases obj) (simp_all add: add_form_def state_of_def)
next
  case (Remove_form self f)
  with m show ?thesis by (simp add: remove_form_def)
next
  case (Run_form self f)
  with m show ?thesis by (simp add: run_form_def)
next
  case (Register self n)
  with m show ?thesis by (simp add: register_form_def state_of_def split: option.splits)
next
  case (Unregister self n)
  with m show ?thesis by (simp add: unregister_form_def)
next
  case (Request_action self n a v)
  with m show ?thesis by (simp add: request_action_def state_of_def Let_def)
next
  case (Check_queue self n)
  with m show ?thesis by (simp add: check_queue_def split: option.splits list.splits)
next
  case (Pop_queue self n)
  with m show ?thesis by (simp add: pop_queue_def state_of_pair_def split: option.splits list.splits)
qed

lemma FormManager_current:
  "manager s = Some m \<Longrightarrow>
   FormManager s = (m, s\<lparr>manager := Some m,
       instances := (instances s)(m := (instances s m)\<lparr>port := 0, server := None\<rparr>)\<rparr>)"
  by (simp add: FormManager_def FormManager_new_def FormManager_init_def)

lemma FormManager_manager: "manager (snd (FormManager s)) = Some (fst (FormManager s))"
  by (simp add: FormManager_def FormManager_new_def FormManager_init_def split: option.splits)

lemma constructions_current:
  "manager s = Some m \<Longrightarrow> set (fst (constructions k s)) \<subseteq> {m}"
proof (induction k arbitrary: s)
  case 0
  then show ?case by simp
next
  case (Suc k)
  have "manager (snd (FormManager s)) = Some m" "fst (FormManager s) = m"
    using Suc.prems by (simp_all add: FormManager_current)
  with Suc.IH[of "snd (FormManager s)"] show ?case
    by (auto split: prod.splits)
qed

lemma constructions_same:
  "a \<in> set (fst (constructions k s)) \<Longrightarrow> b \<in> set (fst (constructions k s)) \<Longrightarrow> a = b"
proof (cases k)
  case 0
  assume "a \<in> set (fst (constructions k s))"
  with 0 show ?thesis by simp
next
  case (Suc j)
  assume a: "a \<in> set (fst (constructions k s))" and b: "b \<in> set (fst (constructions k s))"
  obtain m s' where f: "FormManager s = (m, s')" by (cases "FormManager s")
  then have "manager s' = Some m" using FormManager_manager[of s] by simp
  from constructions_current[OF this, of j]
  have "set (fst (constructions k s)) \<subseteq> {m}"
    using Suc f by (auto split: prod.splits)
  with a b show ?thesis by auto
qed

text \<open>
  Claim C5. Any number of calls of \<^verbatim>\<open>FormManager()\<close> in a row return the same object;
  while a manager is current, the constructor returns it and keeps the forms, the
  active names and the queues, and no call other than \<^verbatim>\<open>kill\<close> changes which object
  is current. After \<^verbatim>\<open>kill()\<close> on the current manager, the constructor returns an
  object that did not exist before, not killed, with no forms, no active names and no
  queues.
\<close>

theorem singleton_until_kill:
  "(\<forall>a \<in> set (fst (constructions k s)). \<forall>b \<in> set (fst (constructions k s)). a = b) \<and>
   (manager s = Some m \<longrightarrow>
      fst (FormManager s) = m \<and>
      forms (snd (FormManager s)) = forms s \<and>
      active_forms (snd (FormManager s)) = active_forms s \<and>
      queue (snd (FormManager s)) = queue s \<and>
      (\<forall>c. (\<forall>self. c \<noteq> Kill self) \<longrightarrow> manager (exec c s) = Some m)) \<and>
   (wf s \<and> manager s = Some m \<longrightarrow>
      (case FormManager (kill m s) of (m', s') \<Rightarrow>
         m' \<noteq> m \<and> m' = allocated s \<and> manager s' = Some m' \<and> \<not> killed (instances s' m') \<and>
         forms s' = [] \<and> active_forms s' = [] \<and> queue s' = Map.empty))"
proof (intro conjI impI ballI allI)
  fix a b
  assume "a \<in> set (fst (constructions k s))" "b \<in> set (fst (constructions k s))"
  then show "a = b" by (rule constructions_same)
next
  assume "wf s \<and> manager s = Some m"
  then show "case FormManager (kill m s) of (m', s') \<Rightarrow>
         m' \<noteq> m \<and> m' = allocated s \<and> manager s' = Some m' \<and> \<not> killed (instances s' m') \<and>
         forms s' = [] \<and> active_forms s' = [] \<and> queue s' = Map.empty"
    by (auto simp: wf_def FormManager_def FormManager_new_def FormManager_init_def kill_def stop_def
        upd_instance_def class_defaults_def Let_def)
qed (simp_all add: FormManager_current manager_exec)

text \<open>
  Claim C8. \<^verbatim>\<open>request_action(n, action, values)\<close> raises the exception for a
  non-existing form when \<open>n\<close> is not known, and the state stays as it was; when \<open>n\<close>
  is known the pair is appended at the end of the queue of \<open>n\<close>, every other queue and
  the registry stay as they were, and a name without a queue entry gets one holding
  just this pair.
\<close>

theorem request_action_enqueues:
  "(n \<notin> known s \<longrightarrow>
      request_action self n a v s = Inl (FormManagerException Non_existing_Form) \<and>
      exec (Request_action self n a v) s = s) \<and>
   (n \<in> known s \<longrightarrow>
      (\<exists>s'. request_action self n a v s = Inr s' \<and>
            queue s' n = Some (pending s n @ [(a, v)]) \<and>
            (\<forall>n'. n' \<noteq> n \<longrightarrow> queue s' n' = queue s n') \<and>
            forms s' = forms s \<and> active_forms s' = active_forms s \<and> manager s' = manager s)) \<and>
   (n \<in> known s \<and> queue s n = None \<longrightarrow>
      (\<exists>s'. request_action self n a v s = Inr s' \<and> queue s' n = Some [(a, v)]))"
  by (simp add: request_action_known request_action_unknown state_of_def pending_def)

text \<open>
  Claim C10. \<^verbatim>\<open>pop_queue(n)\<close> raises \<^verbatim>\<open>IndexError\<close> when the queue entry of \<open>n\<close> is
  an empty list; it returns the string about the missing form exactly when \<open>n\<close> has
  no queue entry, and \<^verbatim>\<open>True\<close> exactly when the entry is not empty, whose head it
  then removes.
\<close>

theorem pop_queue_empty_raises:
  "(queue s n = Some [] \<longrightarrow> pop_queue self n s = Inl IndexError) \<and>
   ((\<exists>v s'. pop_queue self n s = Inr (Pop_no_Form v, s')) \<longleftrightarrow> queue s n = None) \<and>
   (queue s n = None \<longrightarrow> pop_queue self n s = Inr (Pop_no_Form (PStr n), s)) \<and>
   ((\<exists>s'. pop_queue self n s = Inr (Pop_True, s')) \<longleftrightarrow> (\<exists>x rest. queue s n = Some (x # rest))) \<and>
   (\<forall>x rest. queue s n = Some (x # rest) \<longrightarrow>
      pop_queue self n s = Inr (Pop_True, s\<lparr>queue := (queue s)(n \<mapsto> rest)\<rparr>))"
  by (cases "queue s n"; cases "the (queue s n)") (simp_all add: pop_queue_def)

text \<open>
  Claim C7, amended. \<^verbatim>\<open>remove_form(d)\<close> changes nothing when \<open>d\<close> is not in the list
  of forms. When \<open>d\<close> is in the list and the manager is not killed, afterwards \<open>d\<close> is
  not in the list, the queue has no entry for the name of \<open>d\<close>, and the name of \<open>d\<close>
  is still known exactly when another form object of that name was in the list.
\<close>

theorem remove_form_effect:
  "(d \<notin> set (forms s) \<longrightarrow> remove_form self d s = s) \<and>
   (distinct (forms s) \<and> \<not> killed (instances s self) \<and> d \<in> set (forms s) \<longrightarrow>
      d \<notin> set (forms (remove_form self d s)) \<and>
      queue (remove_form self d s) (name d) = None \<and>
      (name d \<in> known (remove_form self d s) \<longleftrightarrow>
         (\<exists>d' \<in> set (forms s). d' \<noteq> d \<and> name d' = name d)))"
proof (intro conjI impI)
  assume "d \<notin> set (forms s)"
  then show "remove_form self d s = s" by (simp add: remove_form_def)
next
  assume h: "distinct (forms s) \<and> \<not> killed (instances s self) \<and> d \<in> set (forms s)"
  then have f: "forms (remove_form self d s) = remove1 d (forms s)"
    by (simp add: remove_form_def)
  from h have s: "set (remove1 d (forms s)) = set (forms s) - {d}" by simp
  show "d \<notin> set (forms (remove_form self d s))" using f s by simp
  show "queue (remove_form self d s) (name d) = None"
    using h by (auto simp: remove_form_def)
  show "name d \<in> known (remove_form self d s) \<longleftrightarrow>
         (\<exists>d' \<in> set (forms s). d' \<noteq> d \<and> name d' = name d)"
    unfolding known_names f s
  proof
    assume "name d \<in> name ` (set (forms s) - {d})"
    then obtain d' where "d' \<in> set (forms s) - {d}" "name d = name d'" by (elim imageE)
    then have "d' \<in> set (forms s)" "d' \<noteq> d \<and> name d' = name d" by simp_all
    then show "\<exists>d' \<in> set (forms s). d' \<noteq> d \<and> name d' = name d" by (rule bexI[rotated])
  next
    assume "\<exists>d' \<in> set (forms s). d' \<noteq> d \<and> name d' = name d"
    then obtain d' where "d' \<in> set (forms s) - {d}" "name d' = name d" by auto
    then show "name d \<in> name ` (set (forms s) - {d})" by (metis imageI)
  qed
qed

text \<open>
  Claim C3, amended. On a manager that is not killed, \<^verbatim>\<open>add_form(d)\<close> for a form object
  not yet in the list succeeds; adding the same object again raises the exception
  "This instance of a Form already exists", and the list holds the object once. Any
  other form object not yet in the list is accepted after it, whatever its name.
\<close>

theorem add_form_same_instance:
  "\<not> killed (instances s self) \<and> d \<notin> set (forms s) \<longrightarrow>
     (\<exists>s1. add_form self (Form_obj d) s = Inr s1 \<and>
           add_form self (Form_obj d) s1 = Inl (FormManagerException Already_exists) \<and>
           count_list (forms s1) d = 1 \<and>
           (\<forall>d2. d2 \<noteq> d \<and> d2 \<notin> set (forms s) \<longrightarrow>
              add_form self (Form_obj d2) s1 = Inr (s1\<lparr>forms := forms s1 @ [d2]\<rparr>)))"
  by (simp add: add_form_def count_list_0_iff)

text \<open>
  Claim C9, amended. A request dictionary that has none of the keys \<^verbatim>\<open>register\<close>,
  \<^verbatim>\<open>unregister\<close>, \<^verbatim>\<open>add_action\<close>, \<^verbatim>\<open>ask_action\<close> and \<^verbatim>\<open>callback\<close> is answered with
  no body, raises nothing and leaves the state as it was.
\<close>

theorem do_POST_ignores_other_keys:
  "(\<forall>k \<in> {''register'', ''unregister'', ''add_action'', ''ask_action'', ''callback''}.
      PStr k \<notin> fst ` set result) \<Longrightarrow>
   do_POST result s = Inr (No_body, s)"
proof -
  assume h: "\<forall>k \<in> {''register'', ''unregister'', ''add_action'', ''ask_action'', ''callback''}.
      PStr k \<notin> fst ` set result"
  have "get_key result ''register'' = None" "get_key result ''unregister'' = None"
    "get_key result ''add_action'' = None" "get_key result ''ask_action'' = None"
    "get_key result ''callback'' = None"
    using h by (simp_all add: get_key_def map_of_eq_None_iff)
  then show ?thesis by (simp add: do_POST_def)
qed

text \<open>
  Claim C2, amended. In every state reached by calls in which \<^verbatim>\<open>remove_form\<close> is only
  applied to a form whose name is not active, the active names are known names.
\<close>

theorem active_subset_known:
  "orderly s \<Longrightarrow> active s \<subseteq> known s"
proof -
  assume "orderly s"
  then have "subset_inv s"
  proof (induction rule: orderly.induct)
    case orderly_boot
    show ?case by (simp add: subset_inv_def boot_def)
  next
    case (orderly_exec s c)
    then show ?case by (simp add: exec_preserves_subset)
  qed
  then show ?thesis by (simp add: subset_inv_def active_def known_names)
qed

lemma one_form_eval:
  "one_form = \<lparr>manager = Some 0, forms = [form1], active_forms = [], processes = Map.empty,
               queue = Map.empty, instances = (\<lambda>_. class_defaults), allocated = 1\<rparr>"
  by (simp add: one_form_def exec_all_def FormManager_def FormManager_new_def FormManager_init_def
      add_form_def state_of_def boot_def class_defaults_def fun_upd_idem)

lemma one_form_known: "known one_form = {''form1''}"
  by (simp add: known_names one_form_eval form1_def)

lemma one_pending_eval:
  "one_pending = \<lparr>manager = Some 0, forms = [form1], active_forms = [], processes = Map.empty,
               queue = [''form1'' \<mapsto> [(''stop'', PList [])]], instances = (\<lambda>_. class_defaults),
               allocated = 1\<rparr>"
  by (simp add: one_pending_def exec_all_def FormManager_def FormManager_new_def
      FormManager_init_def add_form_def request_action_def forms_property_def Let_def
      state_of_def boot_def class_defaults_def fun_upd_idem form1_def)

text \<open>
  Claim C1 as stated fails: with the action \<^verbatim>\<open>stop\<close> already waiting for the known
  form \<open>form1\<close>, the requests for \<^verbatim>\<open>print\<close> and \<^verbatim>\<open>pass\<close> both succeed and
  \<^verbatim>\<open>check_queue\<close> returns the entry of \<^verbatim>\<open>stop\<close>, not that of \<^verbatim>\<open>print\<close>.
\<close>

theorem check_queue_pending_counterexample:
  "''form1'' \<in> known one_pending \<and>
   request_action 0 ''form1'' ''print'' (PStr ''hello'') one_pending \<noteq>
     Inl (FormManagerException Non_existing_Form) \<and>
   request_action 0 ''form1'' ''pass'' (PList [])
       (exec (Request_action 0 ''form1'' ''print'' (PStr ''hello'')) one_pending) \<noteq>
     Inl (FormManagerException Non_existing_Form) \<and>
   fst (check_queue 0 ''form1''
          (exec_all [Request_action 0 ''form1'' ''print'' (PStr ''hello''),
                     Request_action 0 ''form1'' ''pass'' (PList [])] one_pending)) =
     [(''stop'', PList [])] \<and>
   [(''stop'', PList [])] \<noteq> [(''print'', PStr ''hello'')]"
  by (simp add: known_names one_pending_eval exec_all_def request_action_def forms_property_def
      check_queue_def state_of_def Let_def form1_def)

text \<open>
  Claim C1, amended, at \<open>form1\<close> with the actions \<^verbatim>\<open>print\<close> and \<^verbatim>\<open>pass\<close>: once with
  \<^verbatim>\<open>stop\<close> already waiting, once with nothing waiting.
\<close>

theorem check_queue_fifo_witness:
  "''form1'' \<in> known one_pending \<and> queue one_pending ''form1'' = Some [(''stop'', PList [])] \<and>
   check_queue 0 ''form1'' one_pending = ([(''stop'', PList [])], one_pending) \<and>
   (\<exists>s1 s2 s3.
      request_action 0 ''form1'' ''print'' (PStr ''hello'') one_pending = Inr s1 \<and>
      request_action 0 ''form1'' ''pass'' (PList []) s1 = Inr s2 \<and>
      pending s2 ''form1'' = [(''stop'', PList []), (''print'', PStr ''hello''), (''pass'', PList [])] \<and>
      check_queue 0 ''form1'' s2 = ([(''stop'', PList [])], s2) \<and>
      pop_queue 0 ''form1'' s2 = Inr (Pop_True, s3) \<and>
      pending s3 ''form1'' = [(''print'', PStr ''hello''), (''pass'', PList [])] \<and>
      check_queue 0 ''form1'' s3 = ([(''print'', PStr ''hello'')], s3)) \<and>
   queue one_form ''form1'' = None \<and>
   check_queue 0 ''form1'' one_form = ([], one_form) \<and>
   (\<exists>s1 s2 s3.
      request_action 0 ''form1'' ''print'' (PStr ''hello'') one_form = Inr s1 \<and>
      request_action 0 ''form1'' ''pass'' (PList []) s1 = Inr s2 \<and>
      check_queue 0 ''form1'' s2 = ([(''print'', PStr ''hello'')], s2) \<and>
      pop_queue 0 ''form1'' s2 = Inr (Pop_True, s3) \<and>
      check_queue 0 ''form1'' s3 = ([(''pass'', PList [])], s3))"
proof -
  have k: "''form1'' \<in> known one_pending" "''form1'' \<in> known one_form"
    by (simp_all add: known_names one_pending_eval one_form_eval form1_def)
  have q: "queue one_pending ''form1'' = Some [(''stop'', PList [])]"
    "queue one_form ''form1'' = None"
    by (simp_all add: one_pending_eval one_form_eval)
  then have p: "pending one_pending ''form1'' = [(''stop'', PList [])]"
    "pending one_form ''form1'' = []"
    by (simp_all add: pending_def)
  note a = check_queue_fifo[where n = "''form1''" and s = one_pending and self = 0
      and ?a1.0 = "''print''" and ?v1.0 = "PStr ''hello''" and ?a2.0 = "''pass''"
      and ?v2.0 = "PList []"]
  note b = check_queue_fifo[where n = "''form1''" and s = one_form and self = 0
      and ?a1.0 = "''print''" and ?v1.0 = "PStr ''hello''" and ?a2.0 = "''pass''"
      and ?v2.0 = "PList []"]
  from a k q p have a': "check_queue 0 ''form1'' one_pending = ([(''stop'', PList [])], one_pending) \<and>
   (\<exists>s1 s2 s3.
      request_action 0 ''form1'' ''print'' (PStr ''hello'') one_pending = Inr s1 \<and>
      request_action 0 ''form1'' ''pass'' (PList []) s1 = Inr s2 \<and>
      pending s2 ''form1'' = [(''stop'', PList []), (''print'', PStr ''hello''), (''pass'', PList [])] \<and>
      check_queue 0 ''form1'' s2 = ([(''stop'', PList [])], s2) \<and>
      pop_queue 0 ''form1'' s2 = Inr (Pop_True, s3) \<and>
      pending s3 ''form1'' = [(''print'', PStr ''hello''), (''pass'', PList [])] \<and>
      check_queue 0 ''form1'' s3 = ([(''print'', PStr ''hello'')], s3))"
    by simp
  from b k q p have b': "check_queue 0 ''form1'' one_form = ([], one_form) \<and>
   (\<exists>s1 s2 s3.
      request_action 0 ''form1'' ''print'' (PStr ''hello'') one_form = Inr s1 \<and>
      request_action 0 ''form1'' ''pass'' (PList []) s1 = Inr s2 \<and>
      check_queue 0 ''form1'' s2 = ([(''print'', PStr ''hello'')], s2) \<and>
      pop_queue 0 ''form1'' s2 = Inr (Pop_True, s3) \<and>
      check_queue 0 ''form1'' s3 = ([(''pass'', PList [])], s3))"
    by simp
  from k(1) q a' b' show ?thesis by simp
qed

text \<open>
  Claim C8 at a manager that knows \<open>form1\<close> and not \<open>form2\<close>.
\<close>

theorem request_action_enqueues_witness:
  "''form2'' \<notin> known one_form \<and> ''form1'' \<in> known one_form \<and> queue one_form ''form1'' = None \<and>
   request_action 0 ''form2'' ''print'' (PStr ''nope'') one_form =
     Inl (FormManagerException Non_existing_Form) \<and>
   (\<exists>s'. request_action 0 ''form1'' ''print'' (PStr ''test'') one_form = Inr s' \<and>
         queue s' ''form1'' = Some [(''print'', PStr ''test'')])"
proof -
  have h: "''form2'' \<notin> known one_form" "''form1'' \<in> known one_form" "queue one_form ''form1'' = None"
    by (simp_all add: one_form_known) (simp add: one_form_eval)
  from request_action_enqueues[where n = "''form2''" and s = one_form and self = 0 and a = "''print''"
      and v = "PStr ''nope''"]
    request_action_enqueues[where n = "''form1''" and s = one_form and self = 0 and a = "''print''"
      and v = "PStr ''test''"] h
  show ?thesis by simp
qed

lemma two_forms_eval:
  "two_forms = \<lparr>manager = Some 0, forms = [form1, form1'], active_forms = [], processes = Map.empty,
               queue = Map.empty, instances = (\<lambda>_. class_defaults), allocated = 1\<rparr>"
  by (simp add: two_forms_def exec_all_def FormManager_def FormManager_new_def FormManager_init_def
      add_form_def state_of_def boot_def class_defaults_def fun_upd_idem form1_def form1'_def)

lemma registered_eval:
  "registered = \<lparr>manager = Some 0, forms = [form1], active_forms = [''form1''], processes = Map.empty,
               queue = Map.empty, instances = (\<lambda>_. class_defaults), allocated = 1\<rparr>"
  by (simp add: registered_def exec_all_def FormManager_def FormManager_new_def FormManager_init_def
      add_form_def register_form_def forms_property_def state_of_def boot_def class_defaults_def
      fun_upd_idem form1_def)

lemma removed_while_active_eval:
  "removed_while_active = \<lparr>manager = Some 0, forms = [], active_forms = [''form1''],
               processes = Map.empty,
               queue = Map.empty, instances = (\<lambda>_. class_defaults), allocated = 1\<rparr>"
  by (simp add: removed_while_active_def exec_all_def FormManager_def FormManager_new_def
      FormManager_init_def add_form_def register_form_def remove_form_def forms_property_def
      state_of_def boot_def class_defaults_def fun_upd_idem form1_def)

lemma killed_manager_eval:
  "killed_manager = \<lparr>manager = None, forms = [form1], active_forms = [], processes = Map.empty,
               queue = Map.empty,
               instances = (\<lambda>_. class_defaults)(0 := \<lparr>killed = True, running = False, port = 0, server = None\<rparr>),
               allocated = 1\<rparr>"
  by (simp add: killed_manager_def exec_all_def FormManager_def FormManager_new_def
      FormManager_init_def add_form_def kill_def stop_def upd_instance_def Let_def
      state_of_def boot_def class_defaults_def fun_upd_idem)

lemma drained_eval:
  "drained = \<lparr>manager = Some 0, forms = [form1], active_forms = [], processes = Map.empty,
               queue = [''form1'' \<mapsto> []], instances = (\<lambda>_. class_defaults), allocated = 1\<rparr>"
  by (simp add: drained_def exec_all_def FormManager_def FormManager_new_def
      FormManager_init_def add_form_def request_action_def pop_queue_def forms_property_def Let_def
      state_of_def state_of_pair_def boot_def class_defaults_def fun_upd_idem form1_def)

text \<open>
  Claim C2 as stated fails: adding a form, registering it and removing it leaves its
  name active and unknown.
\<close>

theorem active_subset_known_counterexample:
  "reachable removed_while_active \<and> \<not> active removed_while_active \<subseteq> known removed_while_active"
proof
  have "reachable (exec (Remove_form 0 form1) (exec (Register 0 ''form1'')
          (exec (Add_form 0 (Form_obj form1)) (exec Construct boot))))"
    by (intro reachable.intros)
  then show "reachable removed_while_active"
    by (simp add: removed_while_active_def exec_all_def)
  show "\<not> active removed_while_active \<subseteq> known removed_while_active"
    by (simp add: active_def known_names removed_while_active_eval)
qed

text \<open>
  Claim C2, amended, at the state where \<open>form1\<close> was added and has registered.
\<close>

theorem active_subset_known_witness:
  "''form1'' \<in> active registered \<and> active registered \<subseteq> known registered"
proof -
  have "orderly (exec (Register 0 ''form1'') (exec (Add_form 0 (Form_obj form1)) (exec Construct boot)))"
    by (intro orderly.intros) simp_all
  then have o: "orderly registered" by (simp add: registered_def exec_all_def)
  have a: "''form1'' \<in> active registered" by (simp add: active_def registered_eval)
  from active_subset_known[OF o] a show ?thesis by simp
qed

text \<open>
  Claim C3 as stated fails: two different form objects of the same name are both
  added, no exception is raised, and the list holds the name twice.
\<close>

theorem add_form_duplicate_name_counterexample:
  "form1 \<noteq> form1' \<and> name form1 = name form1' \<and>
   add_form 0 (Form_obj form1) (snd (FormManager boot)) = Inr one_form \<and>
   add_form 0 (Form_obj form1') one_form = Inr two_forms \<and>
   map name (forms two_forms) = [''form1'', ''form1'']"
  by (simp add: one_form_eval two_forms_eval add_form_def FormManager_def FormManager_new_def
      FormManager_init_def boot_def class_defaults_def fun_upd_idem)
     (simp add: form1_def form1'_def)

text \<open>
  Claim C3, amended, at a manager holding \<open>form1\<close>, for \<open>form2\<close>.
\<close>

theorem add_form_same_instance_witness:
  "\<not> killed (instances one_form 0) \<and> form2 \<notin> set (forms one_form) \<and>
   (\<exists>s1. add_form 0 (Form_obj form2) one_form = Inr s1 \<and>
         add_form 0 (Form_obj form2) s1 = Inl (FormManagerException Already_exists) \<and>
         count_list (forms s1) form2 = 1)"
proof -
  have h: "\<not> killed (instances one_form 0) \<and> form2 \<notin> set (forms one_form)"
    by (simp add: one_form_eval class_defaults_def) (simp add: form1_def form2_def)
  from add_form_same_instance[where s = one_form and self = 0 and d = form2] h
  show ?thesis by blast
qed

text \<open>
  Claim C7 as stated fails: with two form objects of the name \<^verbatim>\<open>form1\<close> added,
  removing the first leaves the name known.
\<close>

theorem remove_form_duplicate_name_counterexample:
  "\<not> killed (instances two_forms 0) \<and> form1 \<in> set (forms two_forms) \<and>
   name form1 \<in> known (remove_form 0 form1 two_forms)"
  by (simp add: known_names remove_form_def two_forms_eval class_defaults_def)
     (simp add: form1_def form1'_def)

text \<open>
  Claim C7, amended, at a manager holding \<open>form1\<close>: removing \<open>form2\<close> changes nothing,
  removing \<open>form1\<close> leaves its name unknown.
\<close>

theorem remove_form_effect_witness:
  "form2 \<notin> set (forms one_form) \<and> remove_form 0 form2 one_form = one_form \<and>
   distinct (forms one_form) \<and> \<not> killed (instances one_form 0) \<and> form1 \<in> set (forms one_form) \<and>
   form1 \<notin> set (forms (remove_form 0 form1 one_form)) \<and>
   queue (remove_form 0 form1 one_form) (name form1) = None \<and>
   name form1 \<notin> known (remove_form 0 form1 one_form)"
proof -
  have h1: "form2 \<notin> set (forms one_form)"
    by (simp add: one_form_eval) (simp add: form1_def form2_def)
  have h2: "distinct (forms one_form) \<and> \<not> killed (instances one_form 0) \<and> form1 \<in> set (forms one_form)"
    by (simp add: one_form_eval class_defaults_def)
  have h3: "\<not> (\<exists>d' \<in> set (forms one_form). d' \<noteq> form1 \<and> name d' = name form1)"
    by (simp add: one_form_eval)
  from remove_form_effect[where s = one_form and self = 0 and d = form2]
    remove_form_effect[where s = one_form and self = 0 and d = form1] h1 h2 h3
  show ?thesis by blast
qed

text \<open>
  Claim C9 as stated fails for the key \<^verbatim>\<open>add_action\<close>, which is none of the four
  keys of the claim: with an empty list the response has the body
  \<^verbatim>\<open>{'result': 'OK'}\<close>, with a list of one name the handler raises \<^verbatim>\<open>AttributeError\<close>.
\<close>

theorem do_POST_add_action_counterexample:
  "do_POST [(PStr ''add_action'', PList [])] one_form = Inr (Result_OK, one_form) \<and>
   Result_OK \<noteq> No_body \<and>
   do_POST [(PStr ''add_action'', PList [PStr ''form1''])] one_form = Inl AttributeError"
  by (simp add: do_POST_def get_key_def add_action_def)

text \<open>
  Claim C9, amended, at the request \<^verbatim>\<open>{"test": "value"}\<close> of the test suite.
\<close>

theorem do_POST_ignores_other_keys_witness:
  "do_POST [(PStr ''test'', PStr ''value'')] one_form = Inr (No_body, one_form)"
proof -
  have h: "\<forall>k \<in> {''register'', ''unregister'', ''add_action'', ''ask_action'', ''callback''}.
      PStr k \<notin> fst ` set [(PStr ''test'', PStr ''value'')]"
    by simp
  from do_POST_ignores_other_keys[OF h, of one_form] show ?thesis .
qed

text \<open>
  Claim C10 after the only action of \<open>form1\<close> was popped, and for a name with no entry.
\<close>

theorem pop_queue_empty_raises_witness:
  "queue drained ''form1'' = Some [] \<and> pop_queue 0 ''form1'' drained = Inl IndexError \<and>
   queue drained ''form2'' = None \<and>
   pop_queue 0 ''form2'' drained = Inr (Pop_no_Form (PStr ''form2''), drained)"
proof -
  have h: "queue drained ''form1'' = Some []" "queue drained ''form2'' = None"
    by (simp_all add: drained_eval)
  from pop_queue_empty_raises[where s = drained and n = "''form1''" and self = 0]
    pop_queue_empty_raises[where s = drained and n = "''form2''" and self = 0] h
  show ?thesis by simp
qed

lemma killed_guarded_calls:
  "killed (instances s self) \<Longrightarrow>
     run self bound s = (None, s) \<and> stop self s = s \<and> kill self s = s \<and>
     add_form self obj s = Inr s \<and> remove_form self f s = s \<and> run_form self f s = (None, s)"
  by (simp add: run_def stop_def kill_def add_form_def remove_form_def run_form_def)

lemma kill_marks_killed: "killed (instances (kill self s) self)"
  by (simp add: kill_def stop_def upd_instance_def Let_def)

lemma ask_loop_dispatched:
  "map fst (dispatched (ask_loop call result vars)) =
     map fst (dispatched vars) @ [k. (PStr k, args) \<leftarrow> result, k \<in> set actions]"
proof (induction call result vars rule: ask_loop.induct)
  case (1 call vars)
  show ?case by simp
next
  case (2 call key args rest vars)
  then show ?case by (cases "call key args") (simp_all add: Let_def)
qed simp_all

text \<open>
  Claim C5 at a manager with one form added.
\<close>

theorem singleton_until_kill_witness:
  "manager one_form = Some 0 \<and>
   0 \<in> set (fst (constructions (Suc (Suc 0)) one_form)) \<and>
   fst (FormManager one_form) = 0 \<and>
   manager (exec (Add_form 0 (Form_obj form2)) one_form) = Some 0 \<and>
   (case FormManager (kill 0 one_form) of (m', s') \<Rightarrow>
      m' \<noteq> 0 \<and> m' = allocated one_form \<and> manager s' = Some m' \<and> \<not> killed (instances s' m') \<and>
      forms s' = [] \<and> active_forms s' = [] \<and> queue s' = Map.empty)"
proof -
  have w: "wf one_form \<and> manager one_form = Some 0"
    by (simp add: wf_def one_form_eval class_defaults_def)
  have f: "FormManager one_form = (0, one_form)"
    by (simp add: one_form_eval FormManager_def FormManager_new_def FormManager_init_def
        class_defaults_def fun_upd_idem)
  have c: "0 \<in> set (fst (constructions (Suc (Suc 0)) one_form))"
    by (simp add: f)
  note t = singleton_until_kill[where s = one_form and m = 0 and k = "Suc (Suc 0)"]
  from t w have same: "fst (FormManager one_form) = 0"
    and others: "\<forall>c. (\<forall>self. c \<noteq> Kill self) \<longrightarrow> manager (exec c one_form) = Some 0"
    and fresh: "case FormManager (kill 0 one_form) of (m', s') \<Rightarrow>
      m' \<noteq> 0 \<and> m' = allocated one_form \<and> manager s' = Some m' \<and> \<not> killed (instances s' m') \<and>
      forms s' = [] \<and> active_forms s' = [] \<and> queue s' = Map.empty"
    by simp_all
  from others have "(\<forall>self. Add_form 0 (Form_obj form2) \<noteq> Kill self) \<longrightarrow>
      manager (exec (Add_form 0 (Form_obj form2)) one_form) = Some 0"
    by (rule spec)
  then have add: "manager (exec (Add_form 0 (Form_obj form2)) one_form) = Some 0" by simp
  from w have "manager one_form = Some 0" by simp
  with c same add fresh show ?thesis by (intro conjI) simp_all
qed

text \<open>
  Claim C4 against the code. After \<^verbatim>\<open>kill()\<close>, \<^verbatim>\<open>request_action\<close> on the killed object
  still appends to the queue of a known form, and still raises for an unknown one:
  the method has no test of \<^verbatim>\<open>__killed\<close>.
\<close>

theorem killed_manager_still_enqueues:
  "killed (instances killed_manager 0) \<and>
   queue killed_manager ''form1'' = None \<and>
   queue (exec (Request_action 0 ''form1'' ''print'' (PStr ''x'')) killed_manager) ''form1'' =
     Some [(''print'', PStr ''x'')] \<and>
   request_action 0 ''form2'' ''print'' (PStr ''x'') killed_manager =
     Inl (FormManagerException Non_existing_Form)"
  by (simp add: killed_manager_eval request_action_def forms_property_def state_of_def form1_def)

text \<open>
  Claim C6 against the code. For a response with the two keys \<^verbatim>\<open>pass\<close> and
  \<^verbatim>\<open>print\<close>, \<^verbatim>\<open>_ask\<close> sets the status to 1 and still calls both actions.
\<close>

theorem ask_dispatches_every_known_key:
  "ask (\<lambda>key args. None) [(PStr ''pass'', PList []), (PStr ''print'', PList [PStr ''x''])] =
     \<lparr>status = 1, action = Some ''print'', error = [],
      dispatched = [(''pass'', PList []), (''print'', PList [PStr ''x''])]\<rparr>"
  by (simp add: ask_def actions_def)

end
